theory Spec2Isabelle
  imports Main "HOL-Library.Sublist"
begin

section \<open>The file system as the follower sees it\<close>

text \<open>
  The program (\<^verbatim>\<open>apache-log-exporter-api.py\<close>) tails one log file. It observes the
  file system through three calls only: \<^verbatim>\<open>os.lstat(fn)\<close>, \<^verbatim>\<open>open(fn, 'r')\<close> and
  \<^verbatim>\<open>file.readline()\<close>. A file system state maps a path to the inode it names (or to
  nothing when the path is absent) and an inode to its contents. The open file object
  keeps the inode it was opened on, so a rotated file can still be read through it.
  Contents are the decoded text, one \<open>char\<close> per byte; the line terminator is the
  single character \<open>\<newline>\<close>.
\<close>

record fs =
  fs_dir :: "string \<Rightarrow> nat option"
  fs_data :: "nat \<Rightarrow> string"

text \<open>
  The exceptions of the program, all of them subclasses of \<^verbatim>\<open>Exception\<close>: the one
  \<^verbatim>\<open>os.lstat\<close> and \<^verbatim>\<open>open\<close> raise on an absent path, the two classes the program
  declares, the one raised by reading an attribute that an object does not have, and
  any other class, by its name (what the parser raises on a malformed line, for one).
\<close>

datatype exn =
    FileNotFoundError
  | InodeChangedError
  | FileShrunkError
  | AttributeError
  | OtherException string

abbreviation NL :: char where
  "NL \<equiv> CHR ''\<newline>''"

text \<open>\<^verbatim>\<open>GetInodeAndSize(fn)\<close>: \<^verbatim>\<open>os.lstat\<close> raises \<^verbatim>\<open>FileNotFoundError\<close> on an absent path.\<close>

definition GetInodeAndSize :: "fs \<Rightarrow> string \<Rightarrow> exn + (nat \<times> nat)" where
  "GetInodeAndSize w fn =
     (case fs_dir w fn of
        None \<Rightarrow> Inl FileNotFoundError
      | Some ino \<Rightarrow> Inr (ino, length (fs_data w ino)))"

text \<open>
  \<^verbatim>\<open>file.readline()\<close> at read offset \<open>pos\<close>: the characters up to and including the next
  newline, or everything that is left when no newline has been written yet, or the empty
  string at (or beyond) the end of the file.
\<close>

definition readline :: "string \<Rightarrow> nat \<Rightarrow> string" where
  "readline content pos =
     (let rest = drop pos content
      in takeWhile (\<lambda>c. c \<noteq> NL) rest @ take 1 (dropWhile (\<lambda>c. c \<noteq> NL) rest))"

text \<open>\<^verbatim>\<open>line.endswith("\n")\<close>\<close>

definition endswith_nl :: "string \<Rightarrow> bool" where
  "endswith_nl s = (s \<noteq> [] \<and> last s = NL)"

section \<open>The generator \<^verbatim>\<open>follow\<close>\<close>

text \<open>
  The local variables of \<^verbatim>\<open>follow\<close>, which live across its \<^verbatim>\<open>yield\<close>s. The file
  object is the inode it reads and its read offset.
\<close>

record follower =
  origInode :: nat
  lastSize :: nat
  file_ino :: nat
  file_pos :: nat
  line :: string
  ignoreExisting :: bool

text \<open>
  The code before the loop: \<^verbatim>\<open>GetInodeAndSize(fn)\<close> sees the file system \<open>w1\<close>,
  \<^verbatim>\<open>open(fn, 'r')\<close> sees \<open>w2\<close> (the two calls are not atomic).
\<close>

definition follow_open :: "string \<Rightarrow> bool \<Rightarrow> fs \<Rightarrow> fs \<Rightarrow> exn + follower" where
  "follow_open fn ign w1 w2 =
     (case GetInodeAndSize w1 fn of
        Inl e \<Rightarrow> Inl e
      | Inr (ino, sz) \<Rightarrow>
          (case fs_dir w2 fn of
             None \<Rightarrow> Inl FileNotFoundError
           | Some h \<Rightarrow>
               Inr \<lparr>origInode = ino, lastSize = sz, file_ino = h, file_pos = 0,
                    line = [], ignoreExisting = ign\<rparr>))"

text \<open>
  One iteration of \<^verbatim>\<open>while True\<close>. \<open>wr\<close> is the file system when \<^verbatim>\<open>readline\<close> runs,
  \<open>ws\<close> the one that \<^verbatim>\<open>GetInodeAndSize\<close> sees after \<^verbatim>\<open>time.sleep(1)\<close>; \<open>ws\<close> is only
  looked at when nothing was read. \<open>Polled\<close> and \<open>Raised\<close> are the outcomes of the
  branch that slept.
\<close>

datatype iter_result =
    Yielded string follower
  | Buffered follower
  | Polled follower
  | Raised exn

definition follow_iter :: "string \<Rightarrow> follower \<Rightarrow> fs \<Rightarrow> fs \<Rightarrow> iter_result" where
  "follow_iter fn f wr ws =
     (let tmp = readline (fs_data wr (file_ino f)) (file_pos f)
      in if tmp \<noteq> [] then
           (let f1 = f\<lparr>file_pos := file_pos f + length tmp, line := line f @ tmp\<rparr>
            in if endswith_nl (line f1) then
                 (if \<not> ignoreExisting f1 then Yielded (line f1) (f1\<lparr>line := []\<rparr>)
                  else Buffered (f1\<lparr>line := []\<rparr>))
               else Buffered f1)
         else
           (case GetInodeAndSize ws fn of
              Inl e \<Rightarrow> Raised e
            | Inr (newInode, newSize) \<Rightarrow>
                if newInode \<noteq> origInode f then Raised InodeChangedError
                else if newSize < lastSize f then Raised FileShrunkError
                else Polled (f\<lparr>ignoreExisting := False, lastSize := newSize\<rparr>)))"






section \<open>Parsed records and their defaults\<close>

text \<open>
  The log line parser (\<^verbatim>\<open>apachelogs.LogParser\<close>) is an external library: it is a
  parameter, a function from a line to a parsed entry or to the exception it raises.
  An entry is an object whose attributes depend on the log format, so every attribute
  the program reads is optional here: \<open>None\<close> means that \<^verbatim>\<open>hasattr\<close> is false and
  that reading the attribute raises \<^verbatim>\<open>AttributeError\<close>; an attribute that is there
  holds a string or an integer. \<open>truthy\<close> is the truth value of the object, which
  \<^verbatim>\<open>if not entry\<close> tests.

  \<open>exporter\<close> holds the attributes that \<^verbatim>\<open>ApacheLogExporter.__init__\<close> sets and
  \<^verbatim>\<open>read_log_files\<close> reads; the alias table \<^verbatim>\<open>self.resolver\<close> is a dictionary from
  strings to strings.
\<close>

record entry =
  virtual_host :: "string option"
  server_port :: "int option"
  remote_host :: "string option"
  request_uri :: "string option"
  final_status :: "int option"
  bytes_out :: "int option"
  truthy :: bool

record exporter =
  self_fn :: string
  self_parser :: "string \<Rightarrow> exn + entry"
  self_resolver :: "string \<Rightarrow> string option"
  self_ignoreExisting :: bool
  self_enableHistogram :: bool

definition UNSPECIFIED :: string where
  "UNSPECIFIED = ''def''"

text \<open>\<^verbatim>\<open>str\<close> on an integer: its decimal digits, with a minus sign when negative.\<close>

fun digits :: "nat \<Rightarrow> string" where
  "digits n =
     (if n < 10 then [''0123456789'' ! n]
      else digits (n div 10) @ [''0123456789'' ! (n mod 10)])"

declare digits.simps [simp del]

definition str :: "int \<Rightarrow> string" where
  "str i = (if i < 0 then CHR ''-'' # digits (nat (- i)) else digits (nat i))"

text \<open>The three \<^verbatim>\<open>if not hasattr(...)\<close> statements of \<^verbatim>\<open>parse_line\<close>.\<close>

definition apply_defaults :: "entry \<Rightarrow> entry" where
  "apply_defaults entry =
     (let e1 = (if virtual_host entry = None
                then entry\<lparr>virtual_host := Some ''unspecified''\<rparr> else entry);
          e2 = (if server_port e1 = None then e1\<lparr>server_port := Some 80\<rparr> else e1);
          e3 = (if bytes_out e2 = None then e2\<lparr>bytes_out := Some 0\<rparr> else e2)
      in e3)"

definition parse_line :: "exporter \<Rightarrow> string \<Rightarrow> exn + entry" where
  "parse_line self l =
     (case self_parser self l of
        Inl e \<Rightarrow> Inl e
      | Inr entry \<Rightarrow> Inr (apply_defaults entry))"

section \<open>The body of the ingestion loop\<close>

text \<open>
  Everything the loop does to the outside is recorded as an event, in order: a call of
  \<^verbatim>\<open>follow(fn, ignoreExisting)\<close>, a \<^verbatim>\<open>time.sleep\<close>, the \<^verbatim>\<open>print\<close> of the recovery
  handler, a \<^verbatim>\<open>warn\<close> about a line that did not parse, and the two kinds of
  observation sent to the metric sink (label values first, then the observed value).
\<close>

datatype event =
    Follow string bool
  | Sleep nat
  | Print exn
  | Warn string exn
  | SummaryObserve string string string string string int
  | HistogramObserve string string int

text \<open>\<^verbatim>\<open>remote_host = self.resolver.get(entry.remote_host, UNSPECIFIED)\<close>\<close>

definition resolve_remote_host :: "exporter \<Rightarrow> entry \<Rightarrow> exn + string" where
  "resolve_remote_host self entry =
     (case remote_host entry of
        None \<Rightarrow> Inl AttributeError
      | Some h \<Rightarrow> Inr (case self_resolver self h of None \<Rightarrow> UNSPECIFIED | Some a \<Rightarrow> a))"

text \<open>\<^verbatim>\<open>self.webRequestSummary.labels(...).observe(entry.bytes_out)\<close>\<close>

definition summary_observe :: "entry \<Rightarrow> string \<Rightarrow> exn + event" where
  "summary_observe entry rh =
     (case virtual_host entry of None \<Rightarrow> Inl AttributeError | Some vh \<Rightarrow>
     (case server_port entry of None \<Rightarrow> Inl AttributeError | Some p \<Rightarrow>
     (case request_uri entry of None \<Rightarrow> Inl AttributeError | Some u \<Rightarrow>
     (case final_status entry of None \<Rightarrow> Inl AttributeError | Some st \<Rightarrow>
     (case bytes_out entry of None \<Rightarrow> Inl AttributeError | Some b \<Rightarrow>
        Inr (SummaryObserve vh (str p) u (str st) rh b))))))"

text \<open>\<^verbatim>\<open>self.webRequestBytesOutHistogram.labels(...).observe(entry.bytes_out)\<close>\<close>

definition histogram_observe :: "entry \<Rightarrow> string \<Rightarrow> exn + event" where
  "histogram_observe entry rh =
     (case virtual_host entry of None \<Rightarrow> Inl AttributeError | Some vh \<Rightarrow>
     (case bytes_out entry of None \<Rightarrow> Inl AttributeError | Some b \<Rightarrow>
        Inr (HistogramObserve vh rh b)))"

text \<open>
  The body of \<^verbatim>\<open>for line in follow(...)\<close> on one line: the events it emits and the
  exception that leaves the body, if any. Only \<^verbatim>\<open>parse_line\<close> stands inside the inner
  \<^verbatim>\<open>try\<close>.
\<close>

definition process_line :: "exporter \<Rightarrow> string \<Rightarrow> event list \<times> exn option" where
  "process_line self l =
     (case parse_line self l of
        Inl e \<Rightarrow> ([Warn l e], None)
      | Inr entry \<Rightarrow>
          if \<not> truthy entry then ([], None)
          else
            (case resolve_remote_host self entry of
               Inl e \<Rightarrow> ([], Some e)
             | Inr rh \<Rightarrow>
                 (case summary_observe entry rh of
                    Inl e \<Rightarrow> ([], Some e)
                  | Inr s \<Rightarrow>
                      if self_enableHistogram self then
                        (case histogram_observe entry rh of
                           Inl e \<Rightarrow> ([s], Some e)
                         | Inr h \<Rightarrow> ([s, h], None))
                      else ([s], None))))"

section \<open>The ingestion loop \<^verbatim>\<open>read_log_files\<close>\<close>

text \<open>
  The loop never returns, so it is run over a finite stretch of its environment: one
  pair of file system states per step, a step being either the start of \<^verbatim>\<open>follow\<close>
  or one iteration of its loop together with the body run on the line it yields.
  \<open>Stopped e\<close> is the exception \<open>e\<close> leaving \<^verbatim>\<open>read_log_files\<close>.
\<close>

datatype control = Starting | Following follower | Stopped exn

record loop_state =
  loop_ignoreExisting :: bool
  pc :: control
  trace :: "event list"

text \<open>\<^verbatim>\<open>except (FileNotFoundError, InodeChangedError, FileShrunkError) as e:\<close>\<close>

definition handled :: "exn \<Rightarrow> bool" where
  "handled e = (e = FileNotFoundError \<or> e = InodeChangedError \<or> e = FileShrunkError)"

definition handler :: "exn \<Rightarrow> loop_state \<Rightarrow> loop_state" where
  "handler e s =
     (if handled e then
        s\<lparr>trace := trace s @ [Print e, Sleep 1], loop_ignoreExisting := False,
          pc := Starting\<rparr>
      else s\<lparr>pc := Stopped e\<rparr>)"

definition emit :: "event list \<Rightarrow> loop_state \<Rightarrow> loop_state" where
  "emit evs s = s\<lparr>trace := trace s @ evs\<rparr>"

definition loop_step :: "exporter \<Rightarrow> loop_state \<Rightarrow> fs \<times> fs \<Rightarrow> loop_state" where
  "loop_step self s ww =
     (case pc s of
        Stopped e \<Rightarrow> s
      | Starting \<Rightarrow>
          (let s1 = emit [Follow (self_fn self) (loop_ignoreExisting s)] s
           in (case follow_open (self_fn self) (loop_ignoreExisting s) (fst ww) (snd ww) of
                 Inl e \<Rightarrow> handler e s1
               | Inr f \<Rightarrow> s1\<lparr>pc := Following f\<rparr>))
      | Following f \<Rightarrow>
          (case follow_iter (self_fn self) f (fst ww) (snd ww) of
             Raised e \<Rightarrow> handler e (emit [Sleep 1] s)
           | Polled f' \<Rightarrow> (emit [Sleep 1] s)\<lparr>pc := Following f'\<rparr>
           | Buffered f' \<Rightarrow> s\<lparr>pc := Following f'\<rparr>
           | Yielded l f' \<Rightarrow>
               (case process_line self l of
                  (evs, None) \<Rightarrow> (emit evs s)\<lparr>pc := Following f'\<rparr>
                | (evs, Some e) \<Rightarrow> handler e (emit evs s))))"

definition init_state :: "exporter \<Rightarrow> loop_state" where
  "init_state self =
     \<lparr>loop_ignoreExisting = self_ignoreExisting self, pc = Starting, trace = []\<rparr>"

definition read_log_files :: "exporter \<Rightarrow> (fs \<times> fs) list \<Rightarrow> loop_state" where
  "read_log_files self env = foldl (loop_step self) (init_state self) env"

section \<open>Notions the properties are stated with\<close>

text \<open>
  What a stream of characters means as lines, independently of how it is cut into
  reads: \<open>complete_lines buf s\<close> are the newline-terminated lines of \<open>buf @ s\<close>, where
  \<open>buf\<close> is an unterminated beginning that holds no newline, and \<open>partial_tail buf s\<close> is
  what follows the last newline.
\<close>

fun complete_lines :: "string \<Rightarrow> string \<Rightarrow> string list" where
  "complete_lines buf [] = []"
| "complete_lines buf (c # cs) =
     (if c = NL then (buf @ [c]) # complete_lines [] cs
      else complete_lines (buf @ [c]) cs)"




text \<open>The \<^verbatim>\<open>ignoreExisting\<close> arguments of the successive calls of \<^verbatim>\<open>follow\<close>.\<close>

fun follow_flags :: "event list \<Rightarrow> bool list" where
  "follow_flags [] = []"
| "follow_flags (Follow p ign # evs) = ign # follow_flags evs"
| "follow_flags (ev # evs) = follow_flags evs"


fun is_observation :: "event \<Rightarrow> bool" where
  "is_observation (SummaryObserve vh p u st rh b) = True"
| "is_observation (HistogramObserve vh rh b) = True"
| "is_observation ev = False"

section \<open>Example inputs\<close>

text \<open>
  A file system in which the path \<open>p\<close> names inode \<open>ino\<close> with contents \<open>c\<close>, and one in
  which no path exists. \<open>fresh ign\<close> is the state of \<^verbatim>\<open>follow\<close> just after it opened
  inode 7 at a time when the file was empty.
\<close>

definition file_at :: "string \<Rightarrow> nat \<Rightarrow> string \<Rightarrow> fs" where
  "file_at p ino c =
     \<lparr>fs_dir = (\<lambda>q. if q = p then Some ino else None),
      fs_data = (\<lambda>i. if i = ino then c else [])\<rparr>"

definition no_file :: fs where
  "no_file = \<lparr>fs_dir = (\<lambda>q. None), fs_data = (\<lambda>i. [])\<rparr>"

definition fresh :: "bool \<Rightarrow> follower" where
  "fresh ign =
     \<lparr>origInode = 7, lastSize = 0, file_ino = 7, file_pos = 0, line = [],
      ignoreExisting = ign\<rparr>"

text \<open>
  A log that grows: on each row the file system is the same at both observation points.
  \<open>grows cs\<close> shows the path \<^verbatim>\<open>access.log\<close> as inode 7 with the successive
  contents \<open>cs\<close>.
\<close>

definition grows :: "string list \<Rightarrow> (fs \<times> fs) list" where
  "grows cs = map (\<lambda>c. (file_at ''access.log'' 7 c, file_at ''access.log'' 7 c)) cs"

text \<open>
  A parser for the examples. It knows four lines: one with every field, with the values
  of the specification's first end-to-end scenario; one in a format without virtual
  host, port and byte count; one without the remote host; one without the request URI.
  On every other line it raises.
\<close>

definition full_entry :: entry where
  "full_entry =
     \<lparr>virtual_host = Some ''example.com'', server_port = Some 80,
      remote_host = Some ''127.0.0.1'', request_uri = Some ''/index.html'',
      final_status = Some 200, bytes_out = Some 512, truthy = True\<rparr>"

definition ex_parser :: "string \<Rightarrow> exn + entry" where
  "ex_parser l =
     (if l = ''full\<newline>'' then Inr full_entry
      else if l = ''common\<newline>'' then
        Inr (full_entry\<lparr>virtual_host := None, server_port := None, bytes_out := None,
                        remote_host := Some ''10.0.0.9''\<rparr>)
      else if l = ''nohost\<newline>'' then Inr (full_entry\<lparr>remote_host := None\<rparr>)
      else if l = ''nouri\<newline>'' then Inr (full_entry\<lparr>request_uri := None\<rparr>)
      else Inl (OtherException ''InvalidEntryError''))"

definition ex_exporter :: "bool \<Rightarrow> bool \<Rightarrow> exporter" where
  "ex_exporter ign hist =
     \<lparr>self_fn = ''access.log'', self_parser = ex_parser,
      self_resolver = (\<lambda>h. if h = ''127.0.0.1'' \<or> h = ''127.0.1.1''
                            then Some ''localhost'' else None),
      self_ignoreExisting = ign, self_enableHistogram = hist\<rparr>"

section \<open>Reading lines\<close>












lemma complete_lines_terminated:
  "y \<in> set (complete_lines buf s) \<Longrightarrow> endswith_nl y"
  by (induction s arbitrary: buf) (auto simp: endswith_nl_def split: if_splits)






section \<open>Runs of the generator\<close>














section \<open>Truncation\<close>



section \<open>Read offsets\<close>



section \<open>Skipping the existing content\<close>









section \<open>A missing file\<close>

text \<open>
  The statement of C5 fails on the code: when the path is absent at the check that
  follows an idle poll, \<^verbatim>\<open>os.lstat\<close> raises \<^verbatim>\<open>FileNotFoundError\<close>, and that is what
  leaves \<^verbatim>\<open>follow\<close>; a changed inode raises \<^verbatim>\<open>InodeChangedError\<close>, another exception.
  Here the file (inode 7, read to its end) has been removed, or replaced by inode 8.
\<close>

theorem missing_file_counterexample:
  "follow_iter ''access.log'' ((fresh False)\<lparr>lastSize := 4, file_pos := 4\<rparr>)
     (file_at ''access.log'' 7 ''abc\<newline>'') no_file = Raised FileNotFoundError
   \<and> follow_iter ''access.log'' ((fresh False)\<lparr>lastSize := 4, file_pos := 4\<rparr>)
     (file_at ''access.log'' 7 ''abc\<newline>'') (file_at ''access.log'' 8 []) = Raised InodeChangedError
   \<and> Raised FileNotFoundError \<noteq> Raised InodeChangedError"
  by (simp add: follow_iter_def readline_def GetInodeAndSize_def file_at_def no_file_def
      fresh_def)

text \<open>
  C5 (as the code has it). When the path is absent at the check that follows an idle
  poll, \<^verbatim>\<open>follow\<close> raises \<^verbatim>\<open>FileNotFoundError\<close>. \<^verbatim>\<open>read_log_files\<close> recovers from it as
  it does from the \<^verbatim>\<open>InodeChangedError\<close> of a changed inode: it prints the exception,
  sets \<^verbatim>\<open>ignoreExisting\<close> to false, sleeps one second and starts \<^verbatim>\<open>follow\<close> again.
\<close>

theorem missing_file_raises_FileNotFoundError:
  assumes "readline (fs_data wr (file_ino f)) (file_pos f) = []"
    and "pc s = Following f"
  shows "(fs_dir ws (self_fn self) = None \<longrightarrow>
            follow_iter (self_fn self) f wr ws = Raised FileNotFoundError
          \<and> loop_step self s (wr, ws) =
              s\<lparr>trace := trace s @ [Sleep 1, Print FileNotFoundError, Sleep 1],
                loop_ignoreExisting := False, pc := Starting\<rparr>)
       \<and> (\<forall>i. fs_dir ws (self_fn self) = Some i \<and> i \<noteq> origInode f \<longrightarrow>
            follow_iter (self_fn self) f wr ws = Raised InodeChangedError
          \<and> loop_step self s (wr, ws) =
              s\<lparr>trace := trace s @ [Sleep 1, Print InodeChangedError, Sleep 1],
                loop_ignoreExisting := False, pc := Starting\<rparr>)"
  using assms
  by (auto simp: follow_iter_def GetInodeAndSize_def loop_step_def handler_def handled_def
      emit_def)

theorem missing_file_raises_FileNotFoundError_witness:
  "loop_step (ex_exporter True True)
     \<lparr>loop_ignoreExisting = True,
      pc = Following ((fresh False)\<lparr>lastSize := 4, file_pos := 4\<rparr>), trace = []\<rparr>
     (file_at ''access.log'' 7 ''abc\<newline>'', no_file)
   = \<lparr>loop_ignoreExisting = False, pc = Starting,
      trace = [Sleep 1, Print FileNotFoundError, Sleep 1]\<rparr>
   \<and> loop_step (ex_exporter True True)
     \<lparr>loop_ignoreExisting = True,
      pc = Following ((fresh False)\<lparr>lastSize := 4, file_pos := 4\<rparr>), trace = []\<rparr>
     (file_at ''access.log'' 7 ''abc\<newline>'', file_at ''access.log'' 8 [])
   = \<lparr>loop_ignoreExisting = False, pc = Starting,
      trace = [Sleep 1, Print InodeChangedError, Sleep 1]\<rparr>"
proof -
  let ?f = "(fresh False)\<lparr>lastSize := 4, file_pos := 4\<rparr>"
  let ?s = "\<lparr>loop_ignoreExisting = True, pc = Following ?f, trace = []\<rparr>"
  let ?wr = "file_at ''access.log'' 7 ''abc\<newline>''"
  have h1: "readline (fs_data ?wr (file_ino ?f)) (file_pos ?f) = []"
    by (simp add: readline_def file_at_def fresh_def)
  have h2: "pc ?s = Following ?f" by simp
  have a: "fs_dir no_file (self_fn (ex_exporter True True)) = None"
    by (simp add: no_file_def)
  have b: "fs_dir (file_at ''access.log'' 8 []) (self_fn (ex_exporter True True)) = Some 8
           \<and> 8 \<noteq> origInode ?f"
    by (simp add: file_at_def ex_exporter_def fresh_def)
  from missing_file_raises_FileNotFoundError[OF h1 h2, of no_file "ex_exporter True True"] a
  have 1: "loop_step (ex_exporter True True) ?s (?wr, no_file) =
      ?s\<lparr>trace := trace ?s @ [Sleep 1, Print FileNotFoundError, Sleep 1],
         loop_ignoreExisting := False, pc := Starting\<rparr>"
    by blast
  from missing_file_raises_FileNotFoundError[OF h1 h2, of "file_at ''access.log'' 8 []"
      "ex_exporter True True"] b
  have 2: "loop_step (ex_exporter True True) ?s (?wr, file_at ''access.log'' 8 []) =
      ?s\<lparr>trace := trace ?s @ [Sleep 1, Print InodeChangedError, Sleep 1],
         loop_ignoreExisting := False, pc := Starting\<rparr>"
    by blast
  from 1 2 show ?thesis by simp
qed

section \<open>A line that does not parse\<close>

text \<open>
  C7. When the parser raises on a line, the body of the loop warns about the line and
  raises nothing; the loop goes on following (it is not stopped and does not recover),
  its \<^verbatim>\<open>ignoreExisting\<close> is unchanged, and the trace gains the warning only: no
  observation is made for that line.
\<close>

theorem parse_failure_is_skipped:
  assumes "self_parser self l = Inl e"
  shows "process_line self l = ([Warn l e], None)
       \<and> (pc s = Following f \<and> follow_iter (self_fn self) f (fst ww) (snd ww) = Yielded l f'
            \<longrightarrow> loop_step self s ww = s\<lparr>trace := trace s @ [Warn l e], pc := Following f'\<rparr>)"
  using assms by (simp add: process_line_def parse_line_def loop_step_def emit_def)

theorem parse_failure_is_skipped_witness:
  "process_line (ex_exporter True True) ''garbage\<newline>''
     = ([Warn ''garbage\<newline>'' (OtherException ''InvalidEntryError'')], None)
   \<and> loop_step (ex_exporter True True)
       \<lparr>loop_ignoreExisting = True, pc = Following (fresh False), trace = []\<rparr>
       (file_at ''access.log'' 7 ''garbage\<newline>'', file_at ''access.log'' 7 ''garbage\<newline>'')
     = \<lparr>loop_ignoreExisting = True,
        pc = Following ((fresh False)\<lparr>file_pos := 8\<rparr>),
        trace = [Warn ''garbage\<newline>'' (OtherException ''InvalidEntryError'')]\<rparr>"
proof -
  let ?self = "ex_exporter True True"
  let ?l = "''garbage\<newline>''"
  let ?s = "\<lparr>loop_ignoreExisting = True, pc = Following (fresh False), trace = []\<rparr>"
  let ?w = "file_at ''access.log'' 7 ?l"
  have h: "self_parser ?self ?l = Inl (OtherException ''InvalidEntryError'')"
    by (simp add: ex_exporter_def ex_parser_def)
  have y: "pc ?s = Following (fresh False)
           \<and> follow_iter (self_fn ?self) (fresh False) (fst (?w, ?w)) (snd (?w, ?w))
               = Yielded ?l ((fresh False)\<lparr>file_pos := 8\<rparr>)"
    by (simp add: ex_exporter_def follow_iter_def readline_def endswith_nl_def file_at_def
        fresh_def)
  from parse_failure_is_skipped[OF h, of ?s "fresh False" "(?w, ?w)"
      "(fresh False)\<lparr>file_pos := 8\<rparr>"] y
  show ?thesis by simp
qed

section \<open>Defaults and the alias table\<close>




section \<open>Runs of the ingestion loop\<close>

lemma read_log_files_snoc:
  "read_log_files self (env @ [ww]) = loop_step self (read_log_files self env) ww"
  by (simp add: read_log_files_def)

lemma stopped_stays:
  "pc s = Stopped x \<Longrightarrow> foldl (loop_step self) s env = s"
  by (induction env) (simp_all add: loop_step_def)

lemma trace_handler:
  "trace (handler e s) = trace s @ (if handled e then [Print e, Sleep 1] else [])"
  by (simp add: handler_def)

lemma summary_observe_event:
  "summary_observe en rh = Inr ev \<Longrightarrow> \<exists>vh p u st b. ev = SummaryObserve vh p u st rh b"
  by (auto simp: summary_observe_def split: option.splits)

lemma histogram_observe_event:
  "histogram_observe en rh = Inr ev \<Longrightarrow> \<exists>vh b. ev = HistogramObserve vh rh b"
  by (auto simp: histogram_observe_def split: option.splits)

lemma process_line_events:
  "ev \<in> set (fst (process_line self l)) \<Longrightarrow>
     (\<exists>e. ev = Warn l e) \<or> (\<exists>vh p u st rh b. ev = SummaryObserve vh p u st rh b)
     \<or> (self_enableHistogram self \<and> (\<exists>vh rh b. ev = HistogramObserve vh rh b))"
  by (auto simp: process_line_def split: sum.splits if_splits
      dest!: summary_observe_event histogram_observe_event)


lemma process_line_no_follow: "follow_flags (fst (process_line self l)) = []"
proof -
  have "(\<forall>ev\<in>set evs. \<forall>p g. ev \<noteq> Follow p g) \<Longrightarrow> follow_flags evs = []" for evs
    by (induction evs rule: follow_flags.induct) auto
  then show ?thesis using process_line_events[of _ self l] by blast
qed

lemma follow_flags_append: "follow_flags (xs @ ys) = follow_flags xs @ follow_flags ys"
  by (induction xs rule: follow_flags.induct) auto



section \<open>Observations\<close>




section \<open>Which exceptions the loop survives\<close>

text \<open>
  C10. The recovery handler of \<^verbatim>\<open>read_log_files\<close> takes \<^verbatim>\<open>FileNotFoundError\<close>,
  \<^verbatim>\<open>InodeChangedError\<close> and \<^verbatim>\<open>FileShrunkError\<close> and no other exception: after any
  other one the loop is stopped with it. An exception of the parser never leaves the
  body of the loop. After the parser has returned a true entry, an entry without
  \<^verbatim>\<open>remote_host\<close> raises \<^verbatim>\<open>AttributeError\<close> at the look-up of the remote host, and one
  without \<^verbatim>\<open>request_uri\<close> or \<^verbatim>\<open>final_status\<close> raises it when the observation is
  recorded. Whatever exception leaves the body, if it is not one of the three, it
  leaves \<^verbatim>\<open>read_log_files\<close>: the loop is stopped and stays so.
\<close>

theorem only_three_exceptions_recover:
  "pc (handler e s) =
     (if e = FileNotFoundError \<or> e = InodeChangedError \<or> e = FileShrunkError
      then Starting else Stopped e)
   \<and> (self_parser self l = Inl e \<longrightarrow> snd (process_line self l) = None)
   \<and> (self_parser self l = Inr raw \<and> truthy raw \<and> remote_host raw = None \<longrightarrow>
        process_line self l = ([], Some AttributeError))
   \<and> (self_parser self l = Inr raw \<and> truthy raw \<and> remote_host raw = Some h
        \<and> (request_uri raw = None \<or> final_status raw = None) \<longrightarrow>
        process_line self l = ([], Some AttributeError))
   \<and> (pc s = Following f
        \<and> follow_iter (self_fn self) f (fst ww) (snd ww) = Yielded l f'
        \<and> process_line self l = (evs, Some x)
        \<and> x \<notin> {FileNotFoundError, InodeChangedError, FileShrunkError} \<longrightarrow>
        (\<forall>env. pc (foldl (loop_step self) s (ww # env)) = Stopped x))"
proof -
  have a: "pc (handler e s) =
     (if e = FileNotFoundError \<or> e = InodeChangedError \<or> e = FileShrunkError
      then Starting else Stopped e)"
    by (simp add: handler_def handled_def)
  have b: "snd (process_line self l) = None" if "self_parser self l = Inl e"
    using that by (simp add: process_line_def parse_line_def)
  have c: "process_line self l = ([], Some AttributeError)"
    if "self_parser self l = Inr raw" "truthy raw" "remote_host raw = None"
    using that
    by (simp add: process_line_def parse_line_def apply_defaults_def resolve_remote_host_def
        Let_def)
  have d: "process_line self l = ([], Some AttributeError)"
    if "self_parser self l = Inr raw" "truthy raw" "remote_host raw = Some h"
      "request_uri raw = None \<or> final_status raw = None"
    using that
    by (auto simp: process_line_def parse_line_def apply_defaults_def resolve_remote_host_def
        summary_observe_def Let_def split: option.splits)
  have e: "pc (foldl (loop_step self) s (ww # env)) = Stopped x"
    if "pc s = Following f" "follow_iter (self_fn self) f (fst ww) (snd ww) = Yielded l f'"
      "process_line self l = (evs, Some x)"
      "x \<notin> {FileNotFoundError, InodeChangedError, FileShrunkError}" for env
  proof -
    have "pc (loop_step self s ww) = Stopped x"
      using that by (simp add: loop_step_def handler_def handled_def emit_def)
    then show ?thesis using stopped_stays[of "loop_step self s ww" x self env] by simp
  qed
  from a b c d e show ?thesis by blast
qed

theorem only_three_exceptions_recover_witness:
  "pc (handler AttributeError
         \<lparr>loop_ignoreExisting = False, pc = Following (fresh False), trace = []\<rparr>)
     = Stopped AttributeError
   \<and> pc (handler FileShrunkError
         \<lparr>loop_ignoreExisting = False, pc = Following (fresh False), trace = []\<rparr>)
     = Starting
   \<and> process_line (ex_exporter False True) ''nohost\<newline>'' = ([], Some AttributeError)
   \<and> pc (foldl (loop_step (ex_exporter False True))
           \<lparr>loop_ignoreExisting = False, pc = Following (fresh False), trace = []\<rparr>
           (grows [''nohost\<newline>full\<newline>'', ''nohost\<newline>full\<newline>'', ''nohost\<newline>full\<newline>'']))
     = Stopped AttributeError"
proof -
  let ?self = "ex_exporter False True"
  let ?s = "\<lparr>loop_ignoreExisting = False, pc = Following (fresh False), trace = []\<rparr>"
  let ?w = "file_at ''access.log'' 7 ''nohost\<newline>full\<newline>''"
  let ?raw = "full_entry\<lparr>remote_host := None\<rparr>"
  have p: "self_parser ?self ''nohost\<newline>'' = Inr ?raw \<and> truthy ?raw \<and> remote_host ?raw = None"
    by (simp add: ex_exporter_def ex_parser_def full_entry_def)
  have y: "pc ?s = Following (fresh False)
      \<and> follow_iter (self_fn ?self) (fresh False) (fst (?w, ?w)) (snd (?w, ?w))
          = Yielded ''nohost\<newline>'' ((fresh False)\<lparr>file_pos := 7\<rparr>)"
    by (simp add: ex_exporter_def follow_iter_def readline_def endswith_nl_def file_at_def
        fresh_def Let_def)
  have n: "AttributeError \<notin> {FileNotFoundError, InodeChangedError, FileShrunkError}"
    by simp
  note t = only_three_exceptions_recover[where s = ?s and self = ?self
      and l = "''nohost\<newline>''" and raw = ?raw and f = "fresh False" and ww = "(?w, ?w)"
      and f' = "(fresh False)\<lparr>file_pos := 7\<rparr>" and evs = "[]" and x = AttributeError]
  from t[where e = AttributeError]
  have 1: "pc (handler AttributeError ?s) = Stopped AttributeError"
    by simp
  from t[where e = FileShrunkError]
  have 2: "pc (handler FileShrunkError ?s) = Starting"
    by simp
  from t[where e = AttributeError] p
  have 3: "process_line ?self ''nohost\<newline>'' = ([], Some AttributeError)"
    by blast
  from t[where e = AttributeError] y 3 n
  have "\<forall>env. pc (foldl (loop_step ?self) ?s ((?w, ?w) # env)) = Stopped AttributeError"
    by blast
  then have 4: "pc (foldl (loop_step ?self) ?s
        ((?w, ?w) # grows [''nohost\<newline>full\<newline>'', ''nohost\<newline>full\<newline>'']))
      = Stopped AttributeError"
    by blast
  from 1 2 3 4 show ?thesis by (simp add: grows_def)
qed

section \<open>Reopening after a recovery\<close>

lemma follow_flags_loop_step:
  "follow_flags (trace (loop_step self s ww)) =
     follow_flags (trace s) @ (if pc s = Starting then [loop_ignoreExisting s] else [])"
proof (cases "pc s")
  case Starting
  then show ?thesis
    by (simp add: loop_step_def emit_def trace_handler follow_flags_append Let_def
        split: sum.splits)
next
  case (Following f)
  show ?thesis
  proof (cases "follow_iter (self_fn self) f (fst ww) (snd ww)")
    case (Yielded l f')
    obtain evs r where pl: "process_line self l = (evs, r)" by (cases "process_line self l")
    then have "follow_flags evs = []"
      using process_line_no_follow[of self l] by simp
    then show ?thesis
      using Following Yielded pl
      by (cases r) (simp_all add: loop_step_def emit_def trace_handler follow_flags_append)
  qed (use Following in
      \<open>simp_all add: loop_step_def emit_def trace_handler follow_flags_append\<close>)
next
  case (Stopped x)
  then show ?thesis by (simp add: loop_step_def)
qed

lemma loop_step_restart:
  "pc (loop_step self s ww) = Starting \<Longrightarrow> pc s \<noteq> Starting \<Longrightarrow>
     \<not> loop_ignoreExisting (loop_step self s ww)"
  by (auto simp: loop_step_def handler_def emit_def Let_def
      split: control.splits sum.splits iter_result.splits prod.splits option.splits if_splits)

lemma loop_step_from_start:
  "pc s = Starting \<Longrightarrow> pc (loop_step self s ww) = Starting \<Longrightarrow>
     \<not> loop_ignoreExisting (loop_step self s ww)"
  by (auto simp: loop_step_def handler_def emit_def Let_def
      split: sum.splits if_splits)

lemma read_log_files_flags:
  "(follow_flags (trace (read_log_files self env)) = []
      \<and> pc (read_log_files self env) = Starting
      \<and> loop_ignoreExisting (read_log_files self env) = self_ignoreExisting self)
   \<or> ((\<exists>n. follow_flags (trace (read_log_files self env))
             = self_ignoreExisting self # replicate n False)
      \<and> (pc (read_log_files self env) = Starting
            \<longrightarrow> \<not> loop_ignoreExisting (read_log_files self env)))"
proof (induction env rule: rev_induct)
  case Nil
  show ?case by (simp add: read_log_files_def init_state_def)
next
  case (snoc ww env)
  let ?s = "read_log_files self env"
  from snoc show ?case
  proof (elim disjE conjE exE)
    assume "follow_flags (trace ?s) = []" "pc ?s = Starting"
      "loop_ignoreExisting ?s = self_ignoreExisting self"
    then have "follow_flags (trace (loop_step self ?s ww)) = self_ignoreExisting self # replicate 0 False"
      by (simp add: follow_flags_loop_step)
    moreover have "pc (loop_step self ?s ww) = Starting
        \<longrightarrow> \<not> loop_ignoreExisting (loop_step self ?s ww)"
      using loop_step_from_start[OF \<open>pc ?s = Starting\<close>, of self ww] by blast
    ultimately show ?thesis unfolding read_log_files_snoc by blast
  next
    fix n
    assume fl: "follow_flags (trace ?s) = self_ignoreExisting self # replicate n False"
      and st: "pc ?s = Starting \<longrightarrow> \<not> loop_ignoreExisting ?s"
    have "follow_flags (trace (loop_step self ?s ww)) =
        self_ignoreExisting self # replicate (if pc ?s = Starting then Suc n else n) False"
      using fl st by (simp add: follow_flags_loop_step replicate_append_same)
    moreover have "pc (loop_step self ?s ww) = Starting
        \<longrightarrow> \<not> loop_ignoreExisting (loop_step self ?s ww)"
      using loop_step_from_start[of ?s self ww] loop_step_restart[of self ?s ww] by blast
    ultimately show ?thesis unfolding read_log_files_snoc by blast
  qed
qed

text \<open>
  C8. In every run of \<^verbatim>\<open>read_log_files\<close> the first call of \<^verbatim>\<open>follow\<close> gets the
  configured \<^verbatim>\<open>ignoreExisting\<close> and every later call gets false. The handler of each
  of the three recoverable exceptions prints it, sleeps one second, sets
  \<^verbatim>\<open>ignoreExisting\<close> to false and goes back to the start of the loop, where the next
  thing done is the call of \<^verbatim>\<open>follow\<close> with that value.
\<close>

theorem configured_skip_only_on_first_open:
  "(\<exists>n. follow_flags (trace (read_log_files self env))
          = take n (self_ignoreExisting self # replicate n False))
   \<and> (e \<in> {FileNotFoundError, InodeChangedError, FileShrunkError} \<longrightarrow>
        handler e s = s\<lparr>trace := trace s @ [Print e, Sleep 1],
                        loop_ignoreExisting := False, pc := Starting\<rparr>)
   \<and> (pc s = Starting \<longrightarrow>
        (\<exists>evs. trace (loop_step self s ww) =
                 trace s @ Follow (self_fn self) (loop_ignoreExisting s) # evs))
   \<and> (e \<in> {FileNotFoundError, InodeChangedError, FileShrunkError} \<longrightarrow>
        (\<exists>evs. trace (loop_step self (handler e s) ww) =
                 trace s @ [Print e, Sleep 1, Follow (self_fn self) False] @ evs))"
proof -
  have a: "\<exists>n. follow_flags (trace (read_log_files self env))
          = take n (self_ignoreExisting self # replicate n False)"
  proof -
    from read_log_files_flags[of self env] show ?thesis
    proof (elim disjE conjE exE)
      assume "follow_flags (trace (read_log_files self env)) = []"
      then have "follow_flags (trace (read_log_files self env))
          = take 0 (self_ignoreExisting self # replicate 0 False)" by simp
      then show ?thesis by blast
    next
      fix n
      assume "follow_flags (trace (read_log_files self env))
          = self_ignoreExisting self # replicate n False"
      moreover have "take n (False # replicate n False) = replicate n False"
        by (cases n) (simp_all add: replicate_append_same[symmetric] del: replicate_Suc)
      ultimately have "follow_flags (trace (read_log_files self env))
          = take (Suc n) (self_ignoreExisting self # replicate (Suc n) False)" by simp
      then show ?thesis by blast
    qed
  qed
  have b: "handler e s = s\<lparr>trace := trace s @ [Print e, Sleep 1],
                        loop_ignoreExisting := False, pc := Starting\<rparr>"
    if "e \<in> {FileNotFoundError, InodeChangedError, FileShrunkError}"
    using that by (auto simp: handler_def handled_def)
  have c: "\<exists>evs. trace (loop_step self s ww) =
                 trace s @ Follow (self_fn self) (loop_ignoreExisting s) # evs"
    if "pc s = Starting"
    using that
    by (auto simp: loop_step_def emit_def trace_handler Let_def split: sum.splits)
  have d: "\<exists>evs. trace (loop_step self (handler e s) ww) =
                 trace s @ [Print e, Sleep 1, Follow (self_fn self) False] @ evs"
    if "e \<in> {FileNotFoundError, InodeChangedError, FileShrunkError}"
    unfolding b[OF that]
    by (auto simp: loop_step_def emit_def trace_handler Let_def split: sum.splits)
  from a b c d show ?thesis by blast
qed

theorem configured_skip_only_on_first_open_witness:
  "trace (read_log_files (ex_exporter True True)
           (grows [''full\<newline>'', ''full\<newline>'', ''full\<newline>'', [], ''full\<newline>'', ''full\<newline>'']))
     = [Follow ''access.log'' True, Sleep 1,
        Sleep 1, Print FileShrunkError, Sleep 1,
        Follow ''access.log'' False,
        SummaryObserve ''example.com'' ''80'' ''/index.html'' ''200'' ''localhost'' 512,
        HistogramObserve ''example.com'' ''localhost'' 512]
   \<and> (\<exists>n. [True, False] = take n (True # replicate n False))
   \<and> handler FileShrunkError \<lparr>loop_ignoreExisting = True, pc = Starting, trace = []\<rparr>
     = \<lparr>loop_ignoreExisting = False, pc = Starting,
        trace = [Print FileShrunkError, Sleep 1]\<rparr>
   \<and> (\<exists>evs. trace (loop_step (ex_exporter True True)
                      \<lparr>loop_ignoreExisting = True, pc = Starting, trace = []\<rparr>
                      (no_file, no_file))
              = Follow ''access.log'' True # evs)"
proof -
  let ?self = "ex_exporter True True"
  let ?env = "grows [''full\<newline>'', ''full\<newline>'', ''full\<newline>'', [], ''full\<newline>'', ''full\<newline>'']"
  let ?s = "\<lparr>loop_ignoreExisting = True, pc = Starting, trace = []\<rparr>"
  have s80: "str 80 = ''80''" and s200: "str 200 = ''200''" by code_simp+
  have tr: "trace (read_log_files ?self ?env)
     = [Follow ''access.log'' True, Sleep 1,
        Sleep 1, Print FileShrunkError, Sleep 1,
        Follow ''access.log'' False,
        SummaryObserve ''example.com'' ''80'' ''/index.html'' ''200'' ''localhost'' 512,
        HistogramObserve ''example.com'' ''localhost'' 512]"
    by (simp add: parse_line_def process_line_def ex_exporter_def ex_parser_def
      apply_defaults_def resolve_remote_host_def summary_observe_def histogram_observe_def
      full_entry_def read_log_files_def init_state_def loop_step_def emit_def handler_def
      handled_def grows_def file_at_def follow_open_def follow_iter_def readline_def
      endswith_nl_def GetInodeAndSize_def Let_def s80 s200)
  note t = configured_skip_only_on_first_open[where self = ?self and env = ?env
      and e = FileShrunkError and s = ?s and ww = "(no_file, no_file)"]
  from t have "\<exists>n. follow_flags (trace (read_log_files ?self ?env))
          = take n (self_ignoreExisting ?self # replicate n False)"
    by blast
  then have 1: "\<exists>n. [True, False] = take n (True # replicate n False)"
    unfolding tr by (simp add: ex_exporter_def)
  from t have 2: "handler FileShrunkError ?s
     = \<lparr>loop_ignoreExisting = False, pc = Starting, trace = [Print FileShrunkError, Sleep 1]\<rparr>"
    by simp
  from t have 3: "\<exists>evs. trace (loop_step ?self ?s (no_file, no_file))
              = Follow ''access.log'' True # evs"
    by (simp add: ex_exporter_def)
  from tr 1 2 3 show ?thesis by blast
qed

end
